theory Spec2Isabelle
  imports Main
begin

section \<open>Python values used by the program\<close>

text \<open>
  The program is the class \<open>ParserV2\<close> of \<^verbatim>\<open>__main__.py\<close>. Its strings are
  modelled as HOL strings whose characters are the code points below 256, its
  integers (line numbers, counts, indices) as \<open>int\<close>, and every exception it can
  raise as a value of \<open>error\<close>.
\<close>

datatype error = ValueError | KeyError | IndexError

text \<open>\<^verbatim>\<open>xs[i]\<close>: a negative index counts from the end, out of range raises.\<close>

definition py_index :: "'a list \<Rightarrow> int \<Rightarrow> error + 'a" where
  "py_index xs i =
     (if 0 \<le> i \<and> i < int (length xs) then Inr (xs ! nat i)
      else if i < 0 \<and> - int (length xs) \<le> i then Inr (xs ! nat (int (length xs) + i))
      else Inl IndexError)"

text \<open>\<^verbatim>\<open>xs[a:b]\<close>: both bounds are moved into the list, never an error.\<close>

definition slice_bound :: "int \<Rightarrow> int \<Rightarrow> int" where
  "slice_bound n a = (if a < 0 then max (n + a) 0 else min a n)"

definition py_slice :: "'a list \<Rightarrow> int \<Rightarrow> int \<Rightarrow> 'a list" where
  "py_slice xs a b =
     (let n = int (length xs); lo = slice_bound n a; hi = slice_bound n b
      in take (nat (hi - lo)) (drop (nat lo) xs))"

text \<open>\<^verbatim>\<open>range(a, b)\<close> as the list of its values.\<close>

definition py_range :: "int \<Rightarrow> int \<Rightarrow> int list" where
  "py_range a b = [a..b - 1]"

text \<open>\<^verbatim>\<open>str.isspace\<close> and the line boundaries of \<^verbatim>\<open>str.splitlines\<close>, below 256.\<close>

definition is_space :: "char \<Rightarrow> bool" where
  "is_space c = (c \<in> set [CHR 0x09, CHR 0x0A, CHR 0x0B, CHR 0x0C, CHR 0x0D,
     CHR 0x1C, CHR 0x1D, CHR 0x1E, CHR 0x1F, CHR 0x20, CHR 0x85, CHR 0xA0])"

definition is_linebreak :: "char \<Rightarrow> bool" where
  "is_linebreak c = (c \<in> set [CHR 0x0A, CHR 0x0B, CHR 0x0C, CHR 0x0D,
     CHR 0x1C, CHR 0x1D, CHR 0x1E, CHR 0x85])"

definition char_isupper :: "char \<Rightarrow> bool" where
  "char_isupper c =
     (let n = (of_char c :: nat)
      in (65 \<le> n \<and> n \<le> 90) \<or> (192 \<le> n \<and> n \<le> 222 \<and> n \<noteq> 215))"

definition lstrip :: "string \<Rightarrow> string" where
  "lstrip s = dropWhile is_space s"

definition rstrip :: "string \<Rightarrow> string" where
  "rstrip s = rev (dropWhile is_space (rev s))"

text \<open>\<^verbatim>\<open>s.strip(chars)\<close>.\<close>

definition strip_chars :: "string \<Rightarrow> string \<Rightarrow> string" where
  "strip_chars chars s =
     rev (dropWhile (\<lambda>c. c \<in> set chars) (rev (dropWhile (\<lambda>c. c \<in> set chars) s)))"

definition startswith :: "string \<Rightarrow> string \<Rightarrow> bool" where
  "startswith s p = (take (length p) s = p)"

text \<open>\<^verbatim>\<open>sep.join(xs)\<close>.\<close>

fun join :: "string \<Rightarrow> string list \<Rightarrow> string" where
  "join sep [] = []"
| "join sep [x] = x"
| "join sep (x # y # ys) = x @ sep @ join sep (y # ys)"

text \<open>
  \<^verbatim>\<open>s.split(sep)\<close> for a separator that is not empty (both separators of the
  program are literals): the text is cut at every occurrence of \<open>sep\<close>, from
  the left, and the piece being read is \<open>cur\<close>.
\<close>

function split_from :: "string \<Rightarrow> string \<Rightarrow> string \<Rightarrow> string list" where
  "split_from sep cur s =
     (if s = [] then [cur]
      else if sep \<noteq> [] \<and> startswith s sep
        then cur # split_from sep [] (drop (length sep) s)
      else split_from sep (cur @ [hd s]) (tl s))"
  by pat_completeness auto
termination
  by (relation "measure (\<lambda>(sep, cur, s). length s)") auto

declare split_from.simps [simp del]

definition py_split :: "string \<Rightarrow> string \<Rightarrow> string list" where
  "py_split sep s = split_from sep [] s"

text \<open>\<^verbatim>\<open>s.splitlines()\<close>: a final line break opens no further line.\<close>

fun splitlines_from :: "string \<Rightarrow> string \<Rightarrow> string list" where
  "splitlines_from cur [] = (if cur = [] then [] else [cur])"
| "splitlines_from cur (c # cs) =
     (if c = CHR 0x0D \<and> cs \<noteq> [] \<and> hd cs = CHR 0x0A
        then cur # splitlines_from [] (tl cs)
      else if is_linebreak c then cur # splitlines_from [] cs
      else splitlines_from (cur @ [c]) cs)"

definition splitlines :: "string \<Rightarrow> string list" where
  "splitlines s = splitlines_from [] s"

text \<open>\<^verbatim>\<open>s.find(c)\<close> and \<^verbatim>\<open>s.rfind(c)\<close> for one character; \<open>-1\<close> when absent.\<close>

definition py_find :: "string \<Rightarrow> char \<Rightarrow> int" where
  "py_find s c = (if c \<in> set s then int (length (takeWhile (\<lambda>x. x \<noteq> c) s)) else - 1)"

definition py_rfind :: "string \<Rightarrow> char \<Rightarrow> int" where
  "py_rfind s c =
     (if c \<in> set s
      then int (length s) - 1 - int (length (takeWhile (\<lambda>x. x \<noteq> c) (rev s)))
      else - 1)"

text \<open>\<^verbatim>\<open>xs.remove(x)\<close>: the first element equal to \<open>x\<close> goes, ValueError when none is.\<close>

definition list_remove :: "'a list \<Rightarrow> 'a \<Rightarrow> error + 'a list" where
  "list_remove xs x = (if x \<in> set xs then Inr (remove1 x xs) else Inl ValueError)"

section \<open>The query descriptor: \<open>parse_attributes\<close>\<close>

text \<open>
  \<open>index\<close> is \<^verbatim>\<open>str | dict[str, str]\<close>. The result is the triple
  \<^verbatim>\<open>(ret, parent_class, exact)\<close> that the static method returns (or hands to
  \<^verbatim>\<open>_reload\<close>), or the exception it raises.
\<close>

datatype query_index = Str string | Dict "string \<rightharpoonup> string"

type_synonym descriptor = "string \<times> string option \<times> bool"

text \<open>Lines 222 to 225: the split path, with the namespace token removed.\<close>

definition strip_namespace :: "string \<Rightarrow> error + string list" where
  "strip_namespace s =
     (let attributes = py_split ''.'' s
      in case py_index attributes 0 of
           Inl e \<Rightarrow> Inl e
         | Inr first \<Rightarrow>
             if startswith first ''discord'' then list_remove attributes ''discord''
             else Inr attributes)"

definition parse_attributes :: "query_index \<Rightarrow> bool \<Rightarrow> error + descriptor" where
  "parse_attributes index exact =
     (case index of
        Dict d \<Rightarrow>
          if exact then Inl ValueError
          else (case d ''function'' of
                  Some f \<Rightarrow> Inr (strip_chars ''()'' f, d ''class'', exact)
                | None \<Rightarrow>
                    (case d ''class'' of
                       Some c \<Rightarrow> Inr (strip_chars ''()'' c, None, exact)
                     | None \<Rightarrow> Inl KeyError))
      | Str s \<Rightarrow>
          if exact then Inr (s, None, exact)
          else (case strip_namespace s of
                  Inl e \<Rightarrow> Inl e
                | Inr attributes \<Rightarrow>
                    if length attributes = 2 then
                      (case py_index (attributes ! 0) 0 of
                         Inl e \<Rightarrow> Inl e
                       | Inr c \<Rightarrow>
                           Inr (strip_chars ''()'' (attributes ! 1),
                                if char_isupper c then Some (attributes ! 0) else None,
                                exact))
                    else if length attributes = 1 then
                      Inr (strip_chars ''()'' (attributes ! 0), None, exact)
                    else Inl ValueError))"

section \<open>The syntax tree\<close>

text \<open>
  The tree comes from \<^verbatim>\<open>ast.parse\<close>, which is not part of the program. A node
  carries what the program reads of it: its class, \<^verbatim>\<open>name\<close>, \<^verbatim>\<open>lineno\<close>,
  \<^verbatim>\<open>end_lineno\<close> and its child statements. \<open>Other\<close> stands for every statement
  that is neither a module, a class nor a function (it may hold statements, as
  an \<^verbatim>\<open>if\<close> does). Expression children are left out: no class or function
  definition lies below an expression, and the program looks at nothing else.
\<close>

datatype kind = Module | ClassDef | FunctionDef | AsyncFunctionDef | Other

datatype node =
  Node (kind: kind) (name: string) (lineno: int) (end_lineno: int) (body: "node list")

text \<open>
  \<^verbatim>\<open>ast.walk\<close>: a queue of nodes; the first one is taken out, its children are
  put at the end, and it is produced.
\<close>

function walk_from :: "node list \<Rightarrow> node list" where
  "walk_from [] = []"
| "walk_from (n # todo) = n # walk_from (todo @ body n)"
  by pat_completeness auto
termination
proof (relation "measure (size_list size)")
  show "wf (measure (size_list size))" by simp
next
  fix n :: node and todo :: "node list"
  show "(todo @ body n, n # todo) \<in> measure (size_list size)"
    by (cases n) simp
qed

definition walk :: "node \<Rightarrow> node list" where
  "walk t = walk_from [t]"

definition is_function :: "node \<Rightarrow> bool" where
  "is_function n = (kind n = FunctionDef \<or> kind n = AsyncFunctionDef)"

definition is_definition :: "node \<Rightarrow> bool" where
  "is_definition n = (is_function n \<or> kind n = ClassDef)"

section \<open>The parser object\<close>

text \<open>
  The slots of \<open>ParserV2\<close>. The slot \<^verbatim>\<open>_node_mapping\<close> is no field of the record:
  \<^verbatim>\<open>__init__\<close> and \<^verbatim>\<open>_reload\<close> both fill it, whenever \<^verbatim>\<open>exact\<close> is false, with
  the same dictionary comprehension over the tree, which never changes, and it
  is read only when \<^verbatim>\<open>exact\<close> is false; so it is \<open>node_mapping\<close> of the tree.
  A later class of the same name replaces an earlier one. On a parser made
  with \<^verbatim>\<open>exact\<close> true the slot does not exist and reading it raises
  AttributeError; \<open>node_mapping\<close>, \<open>filter_parent_classes\<close> and
  \<open>get_all_parent_classes\<close> stand for the code only where \<open>exact p\<close> is false,
  and every property of them is stated under that hypothesis.
\<close>

record parser =
  source_code :: string
  data :: node
  to_search_for :: string
  cls :: "string option"
  exact :: bool

definition build_mapping :: "node \<Rightarrow> string \<rightharpoonup> node" where
  "build_mapping t =
     fold (\<lambda>n m. if kind n = ClassDef then m(name n \<mapsto> n) else m) (walk t) Map.empty"

definition node_mapping :: "parser \<Rightarrow> string \<rightharpoonup> node" where
  "node_mapping p = build_mapping (data p)"

text \<open>\<^verbatim>\<open>__init__\<close>; \<open>tree\<close> is the value of \<^verbatim>\<open>ast.parse(source_code)\<close>.\<close>

definition init :: "string \<Rightarrow> node \<Rightarrow> string \<Rightarrow> string option \<Rightarrow> bool \<Rightarrow> parser" where
  "init src tree target c ex =
     \<lparr>source_code = src, data = tree, to_search_for = target, cls = c, exact = ex\<rparr>"

definition reload :: "parser \<Rightarrow> string \<Rightarrow> string option \<Rightarrow> bool \<Rightarrow> parser" where
  "reload p target c ex = p\<lparr>to_search_for := target, cls := c, exact := ex\<rparr>"

text \<open>\<^verbatim>\<open>parse_attributes\<close> called with an instance, and \<^verbatim>\<open>create_class\<close>.\<close>

definition parse_attributes_instance ::
  "query_index \<Rightarrow> bool \<Rightarrow> parser \<Rightarrow> error + parser" where
  "parse_attributes_instance index ex p =
     (case parse_attributes index ex of
        Inl e \<Rightarrow> Inl e
      | Inr (ret, parent_class, ex') \<Rightarrow> Inr (reload p ret parent_class ex'))"

definition create_class :: "string \<Rightarrow> node \<Rightarrow> query_index \<Rightarrow> bool \<Rightarrow> error + parser" where
  "create_class src tree index ex =
     (case parse_attributes index ex of
        Inl e \<Rightarrow> Inl e
      | Inr (ret, parent_class, ex') \<Rightarrow> Inr (init src tree ret parent_class ex'))"

section \<open>The parent classes\<close>

definition filter_parent_classes :: "parser \<Rightarrow> string \<Rightarrow> string list" where
  "filter_parent_classes p text =
     (let parent_classes = py_slice text (py_find text CHR ''('' + 1) (py_rfind text CHR '')'')
      in filter (\<lambda>parent_class. node_mapping p parent_class \<noteq> None)
           (py_split '', '' parent_classes))"

text \<open>Line 71: the source line on which a class begins.\<close>

definition class_header :: "parser \<Rightarrow> node \<Rightarrow> error + string" where
  "class_header p nd =
     py_index (splitlines (source_code p)) ((if lineno nd = 0 then 1 else lineno nd) - 1)"

text \<open>
  The \<^verbatim>\<open>while queue\<close> loop of \<open>get_all_parent_classes\<close>. It need not end (a class
  that is its own ancestor keeps the queue filled), so the result is an option:
  \<open>None\<close> is the loop that runs forever, \<open>Some (Inl e)\<close> an exception.
\<close>

partial_function (option) get_all_parent_classes ::
  "parser \<Rightarrow> string list \<Rightarrow> node list \<Rightarrow> (error + node list) option" where
  "get_all_parent_classes p queue current_nodes =
     (case queue of
        [] \<Rightarrow> Some (Inr current_nodes)
      | subclass # rest \<Rightarrow>
          (case node_mapping p subclass of
             None \<Rightarrow> get_all_parent_classes p rest current_nodes
           | Some new_parent_class \<Rightarrow>
               (case class_header p new_parent_class of
                  Inl e \<Rightarrow> Some (Inl e)
                | Inr new_parent_class_text \<Rightarrow>
                    get_all_parent_classes p
                      (rest @ filter_parent_classes p new_parent_class_text)
                      (current_nodes @ [new_parent_class]))))"

declare get_all_parent_classes.simps [code]

section \<open>The search: \<open>parse_data\<close>\<close>

text \<open>
  A match is the pair that the generator yields. \<open>snippet ls a b\<close> is
  \<^verbatim>\<open>("\n".join(ls[a:b]), a)\<close>.
\<close>

type_synonym match = "string \<times> int"

definition nl :: string where
  "nl = [CHR 0x0A]"

definition snippet :: "string list \<Rightarrow> int \<Rightarrow> int \<Rightarrow> match" where
  "snippet ls a b = (join nl (py_slice ls a b), a)"

subsection \<open>Name mode\<close>

text \<open>
  The state of both loops is the counter \<^verbatim>\<open>already_searched\<close> and the matches
  yielded so far. Lines 170 to 183: the body of one class.
\<close>

fun class_body_loop ::
  "string list \<Rightarrow> string \<Rightarrow> node list \<Rightarrow> int \<times> match list \<Rightarrow> int \<times> match list" where
  "class_body_loop ls q [] s = s"
| "class_body_loop ls q (body_item # items) (n, out) =
     (if is_function body_item \<and> name body_item = q
      then class_body_loop ls q items
             (n + 1, out @ [snippet ls (lineno body_item - 1) (end_lineno body_item)])
      else class_body_loop ls q items (n, out))"

text \<open>Lines 167 to 169: the classes, the counter being read once for each class.\<close>

fun class_nodes_loop ::
  "string list \<Rightarrow> string \<Rightarrow> int \<Rightarrow> node list \<Rightarrow> int \<times> match list \<Rightarrow> int \<times> match list" where
  "class_nodes_loop ls q count [] s = s"
| "class_nodes_loop ls q count (nd # nds) (n, out) =
     (if n = count then (n, out)
      else class_nodes_loop ls q count nds (class_body_loop ls q (body nd) (n, out)))"

text \<open>Lines 185 to 199: no class given, every node of the tree.\<close>

fun name_walk_loop ::
  "string list \<Rightarrow> string \<Rightarrow> int \<Rightarrow> node list \<Rightarrow> int \<times> match list \<Rightarrow> int \<times> match list" where
  "name_walk_loop ls q count [] s = s"
| "name_walk_loop ls q count (f # fs) (n, out) =
     (if n = count then (n, out)
      else if is_definition f \<and> name f = q
        then name_walk_loop ls q count fs
               (n + 1, out @ [snippet ls (lineno f - 1) (end_lineno f)])
      else name_walk_loop ls q count fs (n, out))"

subsection \<open>Exact mode\<close>

text \<open>
  The state is the set \<^verbatim>\<open>already_searched\<close>, kept as a list without repetition,
  and the matches yielded so far. Each loop says how it was left: \<open>Next\<close> (it
  ran to its end), \<open>Return\<close> (the generator returned) or \<open>Raise\<close>.
\<close>

datatype ctl = Next | Return | Raise error

type_synonym exact_state = "(int \<times> int) list \<times> match list"

text \<open>Lines 126 to 146: the lines of one function of a class body.\<close>

fun func_lines_loop ::
  "string \<Rightarrow> string list \<Rightarrow> int \<Rightarrow> node \<Rightarrow> int list \<Rightarrow> exact_state \<Rightarrow> ctl \<times> exact_state" where
  "func_lines_loop q new_lines count func_node [] s = (Next, s)"
| "func_lines_loop q new_lines count func_node (i # is) (seen, out) =
     (if int (length seen) = count then (Return, (seen, out))
      else if (lineno func_node, end_lineno func_node) \<in> set seen
        then func_lines_loop q new_lines count func_node is (seen, out)
      else (case py_index new_lines i of
              Inl e \<Rightarrow> (Raise e, (seen, out))
            | Inr line \<Rightarrow>
                if q = line
                then func_lines_loop q new_lines count func_node is
                       (List.insert (lineno func_node, end_lineno func_node) seen,
                        out @ [snippet new_lines (lineno func_node - 1) (end_lineno func_node)])
                else func_lines_loop q new_lines count func_node is (seen, out)))"

text \<open>Lines 114 to 125: the body of a class inside which the line was found.\<close>

fun func_nodes_loop ::
  "string \<Rightarrow> string list \<Rightarrow> int \<Rightarrow> int \<Rightarrow> int \<Rightarrow> node list \<Rightarrow> exact_state \<Rightarrow> ctl \<times> exact_state" where
  "func_nodes_loop q new_lines count start end [] s = (Next, s)"
| "func_nodes_loop q new_lines count start end (func_node # rest) s =
     (if is_function func_node \<and> start \<le> lineno func_node \<and> lineno func_node < end
      then (case func_lines_loop q new_lines count func_node
                   (py_range (lineno func_node - 1) (end_lineno func_node)) s of
              (Next, s') \<Rightarrow> func_nodes_loop q new_lines count start end rest s'
            | r \<Rightarrow> r)
      else func_nodes_loop q new_lines count start end rest s)"

text \<open>Lines 109 to 153: the lines of one class or function of the tree.\<close>

fun node_lines_loop ::
  "string \<Rightarrow> string list \<Rightarrow> int \<Rightarrow> node \<Rightarrow> int list \<Rightarrow> exact_state \<Rightarrow> ctl \<times> exact_state" where
  "node_lines_loop q new_lines count nd [] s = (Next, s)"
| "node_lines_loop q new_lines count nd (i # is) (seen, out) =
     (case py_index new_lines i of
        Inl e \<Rightarrow> (Raise e, (seen, out))
      | Inr line \<Rightarrow>
          if q = rstrip (lstrip line) then
            (if \<not> startswith q ''class '' \<and> kind nd = ClassDef then
               (case func_nodes_loop q new_lines count (lineno nd - 1) (end_lineno nd)
                       (body nd) (seen, out) of
                  (Next, s') \<Rightarrow> node_lines_loop q new_lines count nd is s'
                | r \<Rightarrow> r)
             else if int (length seen) = count then (Return, (seen, out))
             else if (lineno nd - 1, end_lineno nd) \<in> set seen
               then node_lines_loop q new_lines count nd is (seen, out)
             else node_lines_loop q new_lines count nd is
                    (List.insert (lineno nd - 1, end_lineno nd) seen,
                     out @ [snippet new_lines (lineno nd - 1) (end_lineno nd)]))
          else node_lines_loop q new_lines count nd is (seen, out))"

text \<open>Lines 104 to 108: every node of the tree.\<close>

fun exact_walk_loop ::
  "string \<Rightarrow> string list \<Rightarrow> int \<Rightarrow> node list \<Rightarrow> exact_state \<Rightarrow> ctl \<times> exact_state" where
  "exact_walk_loop q new_lines count [] s = (Next, s)"
| "exact_walk_loop q new_lines count (nd # nds) s =
     (if is_definition nd
      then (case node_lines_loop q new_lines count nd
                   (py_range (lineno nd - 1) (end_lineno nd)) s of
              (Next, s') \<Rightarrow> exact_walk_loop q new_lines count nds s'
            | r \<Rightarrow> r)
      else exact_walk_loop q new_lines count nds s)"

text \<open>
  The invariant of the exact search: one match was yielded for every key of
  the set, and the set has at most \<open>count\<close> keys.
\<close>

definition within_count :: "int \<Rightarrow> exact_state \<Rightarrow> bool" where
  "within_count count s = (length (snd s) = length (fst s) \<and> int (length (fst s)) \<le> count)"

subsection \<open>The generator, run to its end\<close>

text \<open>
  \<open>parse_data p count allow_parent_class\<close> is \<open>None\<close> when the generator never
  comes back (the parent classes loop), and otherwise the matches it yields, in
  order, with the exception that ends it, if one does.
\<close>

type_synonym outcome = "match list \<times> error option"

definition exact_outcome :: "ctl \<times> exact_state \<Rightarrow> outcome" where
  "exact_outcome r =
     (case r of
        (Raise e, (seen, out)) \<Rightarrow> (out, Some e)
      | (c, (seen, out)) \<Rightarrow> (out, None))"

definition parse_data :: "parser \<Rightarrow> int \<Rightarrow> bool \<Rightarrow> outcome option" where
  "parse_data p count allow_parent_class =
     (let ls = splitlines (source_code p); q = to_search_for p
      in if exact p then
           (let new_lines = splitlines (rstrip (lstrip (join nl ls)))
            in Some (exact_outcome (exact_walk_loop q new_lines count (walk (data p)) ([], []))))
         else
           (case cls p of
              Some c \<Rightarrow>
                (case node_mapping p c of
                   None \<Rightarrow> Some ([], None)
                 | Some nd \<Rightarrow>
                     if allow_parent_class then
                       (case py_index ls (lineno nd - 1) of
                          Inl e \<Rightarrow> Some ([], Some e)
                        | Inr header \<Rightarrow>
                            (case get_all_parent_classes p (filter_parent_classes p header) [nd] of
                               None \<Rightarrow> None
                             | Some (Inl e) \<Rightarrow> Some ([], Some e)
                             | Some (Inr new_nodes) \<Rightarrow>
                                 Some (snd (class_nodes_loop ls q count new_nodes (0, [])), None)))
                     else Some (snd (class_nodes_loop ls q count [nd] (0, [])), None))
            | None \<Rightarrow> Some (snd (name_walk_loop ls q count (walk (data p)) (0, [])), None)))"

section \<open>The source lines of the specification\<close>




section \<open>The breadth-first order of the specification\<close>

text \<open>
  The order in the words of the specification, to be compared with what
  \<open>get_all_parent_classes\<close> computes. \<open>parents_of p c\<close> are the names that the
  header of the indexed class \<open>c\<close> declares. The generation 0 is the seed
  names, each further generation the parents of the one before, in order and
  with repetitions; the breadth-first order up to depth \<open>d\<close> is the first \<open>d\<close>
  generations, one after the other.
\<close>

definition parents_of :: "parser \<Rightarrow> string \<Rightarrow> string list" where
  "parents_of p c =
     (case node_mapping p c of
        None \<Rightarrow> []
      | Some nd \<Rightarrow>
          (case class_header p nd of
             Inl e \<Rightarrow> []
           | Inr text \<Rightarrow> filter_parent_classes p text))"

fun generation :: "(string \<Rightarrow> string list) \<Rightarrow> nat \<Rightarrow> string list \<Rightarrow> string list" where
  "generation par 0 names = names"
| "generation par (Suc d) names = generation par d (concat (map par names))"

fun breadth_first :: "(string \<Rightarrow> string list) \<Rightarrow> nat \<Rightarrow> string list \<Rightarrow> string list" where
  "breadth_first par 0 names = []"
| "breadth_first par (Suc d) names = names @ breadth_first par d (concat (map par names))"

section \<open>Example sources\<close>

text \<open>
  Each source comes with the tree that \<^verbatim>\<open>ast.parse\<close> gives for it. A module has
  no line numbers; the two fields are 0 there and never read.
\<close>

text \<open>A class that defines \<open>foo\<close> twice.\<close>

definition two_foo_source :: string where
  "two_foo_source =
     ''class A:'' @ nl @
     ''    def foo(self):'' @ nl @
     ''        return 1'' @ nl @
     ''    def foo(self):'' @ nl @
     ''        return 2'' @ nl"

definition two_foo_tree :: node where
  "two_foo_tree =
     Node Module [] 0 0
       [Node ClassDef ''A'' 1 5
          [Node FunctionDef ''foo'' 2 3 [Node Other [] 3 3 []],
           Node FunctionDef ''foo'' 4 5 [Node Other [] 5 5 []]]]"

text \<open>A method and, after the class, a function with the same line.\<close>

definition method_function_source :: string where
  "method_function_source =
     ''class A:'' @ nl @
     ''    def foo(self):'' @ nl @
     ''        return 1'' @ nl @
     ''def g():'' @ nl @
     ''    return 1'' @ nl"

definition method_function_tree :: node where
  "method_function_tree =
     Node Module [] 0 0
       [Node ClassDef ''A'' 1 3
          [Node FunctionDef ''foo'' 2 3 [Node Other [] 3 3 []]],
        Node FunctionDef ''g'' 4 5 [Node Other [] 5 5 []]]"

text \<open>A method with a line that is not indented, inside parentheses.\<close>

definition continuation_source :: string where
  "continuation_source =
     ''class A:'' @ nl @
     ''    def foo(self):'' @ nl @
     ''        return ('' @ nl @
     ''1'' @ nl @
     ''        )'' @ nl"

definition continuation_tree :: node where
  "continuation_tree =
     Node Module [] 0 0
       [Node ClassDef ''A'' 1 5
          [Node FunctionDef ''foo'' 2 5 [Node Other [] 3 5 []]]]"

text \<open>Class \<open>A\<close> with a method \<open>foo\<close>, and class \<open>B(A)\<close> without it.\<close>

definition inherit_source :: string where
  "inherit_source =
     ''class A:'' @ nl @
     ''    def foo(self):'' @ nl @
     ''        return 1'' @ nl @
     ''class B(A):'' @ nl @
     ''    pass'' @ nl"

definition inherit_tree :: node where
  "inherit_tree =
     Node Module [] 0 0
       [Node ClassDef ''A'' 1 3
          [Node FunctionDef ''foo'' 2 3 [Node Other [] 3 3 []]],
        Node ClassDef ''B'' 4 5 [Node Other [] 5 5 []]]"



text \<open>Class \<open>D\<close> reaches class \<open>A\<close> along two paths.\<close>

definition diamond_source :: string where
  "diamond_source =
     ''class A:'' @ nl @
     ''    pass'' @ nl @
     ''class B(A):'' @ nl @
     ''    pass'' @ nl @
     ''class C(A):'' @ nl @
     ''    pass'' @ nl @
     ''class D(B, C):'' @ nl @
     ''    pass'' @ nl"

definition diamond_tree :: node where
  "diamond_tree =
     Node Module [] 0 0
       [Node ClassDef ''A'' 1 2 [Node Other [] 2 2 []],
        Node ClassDef ''B'' 3 4 [Node Other [] 4 4 []],
        Node ClassDef ''C'' 5 6 [Node Other [] 6 6 []],
        Node ClassDef ''D'' 7 8 [Node Other [] 8 8 []]]"

text \<open>The parser objects of the examples.\<close>

definition diamond_parser :: parser where
  "diamond_parser = init diamond_source diamond_tree ''foo'' (Some ''D'') False"

definition inherit_parser :: parser where
  "inherit_parser = init inherit_source inherit_tree ''foo'' (Some ''B'') False"

definition missing_class_parser :: parser where
  "missing_class_parser = init inherit_source inherit_tree ''foo'' (Some ''C'') False"



definition two_foo_parser :: parser where
  "two_foo_parser = init two_foo_source two_foo_tree ''foo'' (Some ''A'') False"

definition method_function_parser :: parser where
  "method_function_parser =
     init method_function_source method_function_tree ''return 1'' None True"

definition continuation_parser :: parser where
  "continuation_parser = init continuation_source continuation_tree ''1'' None True"

section \<open>Properties of the query descriptor\<close>

lemma split_from_not_Nil: "split_from sep cur s \<noteq> []"
proof (induction sep cur s rule: split_from.induct)
  case (1 sep cur s)
  show ?case
    by (subst split_from.simps) (use 1 in auto)
qed

lemma py_split_not_Nil: "py_split sep s \<noteq> []"
  by (simp add: py_split_def split_from_not_Nil)

lemma py_index_0: "xs \<noteq> [] \<Longrightarrow> py_index xs 0 = Inr (hd xs)"
  by (cases xs) (simp_all add: py_index_def)

lemma strip_namespace_cases:
  "strip_namespace s =
     (if startswith (hd (py_split ''.'' s)) ''discord''
      then (if ''discord'' \<in> set (py_split ''.'' s)
            then Inr (remove1 ''discord'' (py_split ''.'' s)) else Inl ValueError)
      else Inr (py_split ''.'' s))"
  by (simp add: strip_namespace_def Let_def py_index_0 py_split_not_Nil list_remove_def)

lemma strip_namespace_error: "strip_namespace s = Inl e \<Longrightarrow> e = ValueError"
  by (simp add: strip_namespace_cases split: if_splits)

lemma parse_attributes_path:
  "strip_namespace s = Inr segs \<Longrightarrow>
   parse_attributes (Str s) False =
     (if length segs = 2 then
        (if segs ! 0 = [] then Inl IndexError
         else Inr (strip_chars ''()'' (segs ! 1),
                   if char_isupper (hd (segs ! 0)) then Some (segs ! 0) else None, False))
      else if length segs = 1 then Inr (strip_chars ''()'' (segs ! 0), None, False)
      else Inl ValueError)"
  by (cases "segs ! 0") (simp_all add: parse_attributes_def py_index_def)

text \<open>
  C3, as stated, fails: the bare namespace token is a string query in name
  mode that leaves no segment at all, and \<open>parse_attributes\<close> raises ValueError
  on it.
\<close>

theorem C3_counterexample:
  "parse_attributes (Str ''discord'') False = Inl ValueError \<and>
   strip_namespace ''discord'' = Inr []"
  by code_simp

text \<open>
  C3, amended. On every input whose namespace stripping does not itself fail,
  \<open>parse_attributes\<close> raises ValueError exactly when \<open>exact\<close> comes with a
  structured descriptor, or when a string query in name mode leaves a number of
  segments that is neither one nor two. The exception comes before anything is
  searched: neither \<open>create_class\<close> nor the call with an instance gives a
  parser.
\<close>

theorem C3_validation_errors:
  "(\<forall>s. index = Str s \<and> \<not> ex \<longrightarrow> strip_namespace s \<noteq> Inl ValueError) \<longrightarrow>
     ((parse_attributes index ex = Inl ValueError) =
        ((ex \<and> (\<exists>d. index = Dict d)) \<or>
         (\<not> ex \<and> (\<exists>s segs. index = Str s \<and> strip_namespace s = Inr segs \<and>
             length segs \<noteq> 1 \<and> length segs \<noteq> 2)))) \<and>
     (\<forall>e. parse_attributes index ex = Inl e \<longrightarrow>
        create_class src tree index ex = Inl e \<and>
        parse_attributes_instance index ex p = Inl e)"
proof (intro impI conjI allI)
  assume ok: "\<forall>s. index = Str s \<and> \<not> ex \<longrightarrow> strip_namespace s \<noteq> Inl ValueError"
  show "(parse_attributes index ex = Inl ValueError) =
          ((ex \<and> (\<exists>d. index = Dict d)) \<or>
           (\<not> ex \<and> (\<exists>s segs. index = Str s \<and> strip_namespace s = Inr segs \<and>
               length segs \<noteq> 1 \<and> length segs \<noteq> 2)))"
  proof (cases index)
    case (Dict d)
    then show ?thesis
      by (simp add: parse_attributes_def split: option.splits)
  next
    case (Str s)
    show ?thesis
    proof (cases ex)
      case True
      with Str show ?thesis by (simp add: parse_attributes_def)
    next
      case False
      with Str ok have "strip_namespace s \<noteq> Inl ValueError" by simp
      then obtain segs where segs: "strip_namespace s = Inr segs"
        using strip_namespace_error [of s] by (cases "strip_namespace s") auto
      from Str False segs show ?thesis
        by (simp add: parse_attributes_path)
    qed
  qed
next
  fix e
  assume "parse_attributes index ex = Inl e"
  then show "create_class src tree index ex = Inl e"
    by (simp add: create_class_def)
next
  fix e
  assume "parse_attributes index ex = Inl e"
  then show "parse_attributes_instance index ex p = Inl e"
    by (simp add: parse_attributes_instance_def)
qed

theorem C3_validation_errors_witness:
  "parse_attributes (Str ''a.b.c'') False = Inl ValueError \<and>
   strip_namespace ''a.b.c'' = Inr [''a'', ''b'', ''c''] \<and>
   create_class inherit_source inherit_tree (Str ''a.b.c'') False = Inl ValueError \<and>
   parse_attributes_instance (Str ''a.b.c'') False
     (init inherit_source inherit_tree ''foo'' None False) = Inl ValueError"
proof -
  define src where "src = inherit_source"
  define tree where "tree = inherit_tree"
  define p where "p = init inherit_source inherit_tree ''foo'' None False"
  have segs: "strip_namespace ''a.b.c'' = Inr [''a'', ''b'', ''c'']"
    by code_simp
  have ok: "\<forall>s. Str ''a.b.c'' = Str s \<and> \<not> False \<longrightarrow> strip_namespace s \<noteq> Inl ValueError"
    using segs by simp
  have raised: "parse_attributes (Str ''a.b.c'') False = Inl ValueError"
    using C3_validation_errors [of "Str ''a.b.c''" False src tree p] ok segs by simp
  show ?thesis
    using C3_validation_errors [of "Str ''a.b.c''" False src tree p] ok segs raised
    by (simp add: src_def tree_def p_def)
qed

text \<open>
  C6, as stated, fails twice: the single segment \<open>discord\<close> sets no target (it
  is the namespace token, nothing remains and ValueError is raised), and the
  target of \<open>Embed.set_author()\<close> is not the second segment but that segment
  without its parentheses.
\<close>

theorem C6_counterexample:
  "parse_attributes (Str ''discord'') False = Inl ValueError \<and>
   py_split ''.'' ''discord'' = [''discord''] \<and>
   parse_attributes (Str ''Embed.set_author()'') False = Inr (''set_author'', Some ''Embed'', False) \<and>
   py_split ''.'' ''Embed.set_author()'' = [''Embed'', ''set_author()'']"
  by code_simp

text \<open>
  C6, amended. The segments are those that remain after namespace stripping
  and the target is the segment without leading and trailing parentheses. Two
  segments, the first starting with an uppercase letter: the class is the first
  and the target the second. Two segments, the first not empty and not starting
  with an uppercase letter: the class is dropped. One segment: only the target.
  More than two: ValueError. A path whose first segment does not start with
  the namespace token keeps all its segments.
\<close>

theorem C6_path_parsing:
  "strip_namespace s = Inr segs \<Longrightarrow>
     (\<forall>a b. segs = [a, b] \<and> a \<noteq> [] \<and> char_isupper (hd a) \<longrightarrow>
        parse_attributes (Str s) False = Inr (strip_chars ''()'' b, Some a, False)) \<and>
     (\<forall>a b. segs = [a, b] \<and> a \<noteq> [] \<and> \<not> char_isupper (hd a) \<longrightarrow>
        parse_attributes (Str s) False = Inr (strip_chars ''()'' b, None, False)) \<and>
     (\<forall>a. segs = [a] \<longrightarrow>
        parse_attributes (Str s) False = Inr (strip_chars ''()'' a, None, False)) \<and>
     (2 < length segs \<longrightarrow> parse_attributes (Str s) False = Inl ValueError) \<and>
     (\<not> startswith (hd (py_split ''.'' s)) ''discord'' \<longrightarrow> segs = py_split ''.'' s)"
  by (auto simp: parse_attributes_path strip_namespace_cases split: if_splits)

theorem C6_path_parsing_witness:
  "parse_attributes (Str ''Embed.set_author'') False = Inr (''set_author'', Some ''Embed'', False) \<and>
   parse_attributes (Str ''utils.get'') False = Inr (''get'', None, False) \<and>
   parse_attributes (Str ''set_author'') False = Inr (''set_author'', None, False) \<and>
   parse_attributes (Str ''a.b.c'') False = Inl ValueError"
proof -
  have s1: "strip_namespace ''Embed.set_author'' = Inr [''Embed'', ''set_author'']"
    and s2: "strip_namespace ''utils.get'' = Inr [''utils'', ''get'']"
    and s3: "strip_namespace ''set_author'' = Inr [''set_author'']"
    and s4: "strip_namespace ''a.b.c'' = Inr [''a'', ''b'', ''c'']"
    by code_simp+
  have u: "char_isupper (hd ''Embed'')" "\<not> char_isupper (hd ''utils'')"
    by code_simp+
  have p: "strip_chars ''()'' ''set_author'' = ''set_author''" "strip_chars ''()'' ''get'' = ''get''"
    by code_simp+
  show ?thesis
    using C6_path_parsing [OF s1] C6_path_parsing [OF s2] C6_path_parsing [OF s3]
      C6_path_parsing [OF s4] u p
    by simp
qed

text \<open>
  C10, as stated, fails: the first segment of \<open>discordx.discord.foo\<close> starts
  with the token and is not the token, and no ValueError is raised; the second
  segment is removed and the path is parsed.
\<close>

theorem C10_counterexample:
  "parse_attributes (Str ''discordx.discord.foo'') False = Inr (''foo'', None, False) \<and>
   py_split ''.'' ''discordx.discord.foo'' = [''discordx'', ''discord'', ''foo''] \<and>
   startswith ''discordx'' ''discord''"
  by code_simp

text \<open>
  C10, amended. For a string query in name mode whose first segment starts
  with the token \<open>discord\<close>: when no segment is the token, \<open>parse_attributes\<close>
  raises the ValueError of the list-remove step; when some segment is the
  token, the first such segment, which need not be the first segment, is
  removed and the remaining segments are parsed.
\<close>

theorem C10_namespace_prefix:
  "py_split ''.'' s = first # rest \<Longrightarrow> startswith first ''discord'' \<Longrightarrow>
     (''discord'' \<notin> set (first # rest) \<longrightarrow>
        strip_namespace s = Inl ValueError \<and> parse_attributes (Str s) False = Inl ValueError) \<and>
     (''discord'' \<in> set (first # rest) \<longrightarrow>
        strip_namespace s = Inr (remove1 ''discord'' (first # rest)))"
  by (simp add: strip_namespace_cases parse_attributes_def)

theorem C10_namespace_prefix_witness:
  "parse_attributes (Str ''discordx.Class.method'') False = Inl ValueError \<and>
   strip_namespace ''discord.Embed.set_author'' = Inr [''Embed'', ''set_author'']"
proof -
  have s1: "py_split ''.'' ''discordx.Class.method'' = ''discordx'' # [''Class'', ''method'']"
    and s2: "py_split ''.'' ''discord.Embed.set_author'' = ''discord'' # [''Embed'', ''set_author'']"
    by code_simp+
  have p: "startswith ''discordx'' ''discord''" "startswith ''discord'' ''discord''"
    by code_simp+
  show ?thesis
    using C10_namespace_prefix [OF s1 p(1)] C10_namespace_prefix [OF s2 p(2)]
    by simp
qed

section \<open>Properties of the tree and of the index\<close>



lemma fold_index:
  "fold (\<lambda>n m. if kind n = ClassDef then m(name n \<mapsto> n) else m) xs m0 c = Some nd \<Longrightarrow>
   m0 c = Some nd \<or> (nd \<in> set xs \<and> kind nd = ClassDef \<and> name nd = c)"
  by (induction xs arbitrary: m0) (fastforce split: if_splits)+

lemma node_mapping_Some:
  "node_mapping p c = Some nd \<Longrightarrow>
   nd \<in> set (walk (data p)) \<and> kind nd = ClassDef \<and> name nd = c"
  using fold_index [of "walk (data p)" Map.empty c nd]
  by (simp add: node_mapping_def build_mapping_def)

lemma class_header_cases: "class_header p nd = Inl e \<Longrightarrow> e = IndexError"
  by (simp add: class_header_def py_index_def split: if_splits)

section \<open>Properties of the parent classes\<close>

lemma filter_parent_classes_indexed:
  "set (filter_parent_classes p text) \<subseteq> dom (node_mapping p)"
  by (auto simp: filter_parent_classes_def Let_def)

lemma takeWhile_absent: "c \<notin> set xs \<Longrightarrow> takeWhile (\<lambda>x. x \<noteq> c) xs = xs"
  by (induction xs) auto

lemma py_find_first: "c \<notin> set pre \<Longrightarrow> py_find (pre @ c # rest) c = int (length pre)"
  by (simp add: py_find_def takeWhile_tail takeWhile_absent)

lemma py_rfind_last:
  "c \<notin> set post \<Longrightarrow> py_rfind (front @ c # post) c = int (length front)"
  by (simp add: py_rfind_def takeWhile_tail takeWhile_absent)

lemma py_slice_middle:
  "py_slice (front @ mid @ back) (int (length front)) (int (length front) + int (length mid)) = mid"
  by (simp add: py_slice_def slice_bound_def Let_def)

lemma between_parentheses:
  assumes "CHR ''('' \<notin> set pre" and "CHR '')'' \<notin> set post"
  shows "py_slice (pre @ ''('' @ mid @ '')'' @ post)
           (py_find (pre @ ''('' @ mid @ '')'' @ post) CHR ''('' + 1)
           (py_rfind (pre @ ''('' @ mid @ '')'' @ post) CHR '')'') = mid"
proof -
  let ?text = "pre @ ''('' @ mid @ '')'' @ post"
  have f: "py_find ?text CHR ''('' = int (length pre)"
    using py_find_first [OF assms(1), of "mid @ '')'' @ post"] by simp
  have r: "py_rfind ?text CHR '')'' = int (length (pre @ ''('')) + int (length mid)"
    using py_rfind_last [OF assms(2), of "pre @ ''('' @ mid"] by simp
  have "py_slice ((pre @ ''('') @ mid @ ('')'' @ post)) (int (length (pre @ ''(''))) 
          (int (length (pre @ ''('')) + int (length mid)) = mid"
    by (rule py_slice_middle)
  then show ?thesis
    using f r by (simp add: add.commute)
qed

lemma map_filter_append:
  "List.map_filter f (xs @ ys) = List.map_filter f xs @ List.map_filter f ys"
  by (simp add: List.map_filter_def)

lemma parents_step:
  assumes hdr: "\<forall>nd \<in> set (walk (data p)). kind nd = ClassDef \<longrightarrow> class_header p nd \<noteq> Inl IndexError"
  shows "get_all_parent_classes p (xs @ ys) acc =
         get_all_parent_classes p (ys @ concat (map (parents_of p) xs))
           (acc @ List.map_filter (node_mapping p) xs)"
proof (induction xs arbitrary: ys acc)
  case Nil
  show ?case by (simp add: List.map_filter_def)
next
  case (Cons x xs)
  show ?case
  proof (cases "node_mapping p x")
    case None
    then have "get_all_parent_classes p ((x # xs) @ ys) acc = get_all_parent_classes p (xs @ ys) acc"
      by (subst get_all_parent_classes.simps) simp
    with None Cons [of ys acc] show ?thesis
      by (simp add: parents_of_def List.map_filter_def)
  next
    case (Some nd)
    with hdr node_mapping_Some [OF Some] have "class_header p nd \<noteq> Inl IndexError" by blast
    then obtain header where header: "class_header p nd = Inr header"
      using class_header_cases [of p nd] by (cases "class_header p nd") auto
    have "get_all_parent_classes p ((x # xs) @ ys) acc =
          get_all_parent_classes p (xs @ (ys @ filter_parent_classes p header)) (acc @ [nd])"
      by (subst get_all_parent_classes.simps) (simp add: Some header)
    also have "\<dots> = get_all_parent_classes p
        ((ys @ filter_parent_classes p header) @ concat (map (parents_of p) xs))
        ((acc @ [nd]) @ List.map_filter (node_mapping p) xs)"
      by (rule Cons)
    finally have step: "get_all_parent_classes p ((x # xs) @ ys) acc =
        get_all_parent_classes p
          ((ys @ filter_parent_classes p header) @ concat (map (parents_of p) xs))
          ((acc @ [nd]) @ List.map_filter (node_mapping p) xs)" .
    have px: "parents_of p x = filter_parent_classes p header"
      by (simp add: parents_of_def Some header)
    have mx: "List.map_filter (node_mapping p) (x # xs) = nd # List.map_filter (node_mapping p) xs"
      by (simp add: List.map_filter_def Some)
    show ?thesis
      unfolding step by (simp add: px Some)
  qed
qed

lemma parents_breadth_first:
  assumes hdr: "\<forall>nd \<in> set (walk (data p)). kind nd = ClassDef \<longrightarrow> class_header p nd \<noteq> Inl IndexError"
  shows "generation (parents_of p) d seeds = [] \<Longrightarrow>
         get_all_parent_classes p seeds acc =
           Some (Inr (acc @ List.map_filter (node_mapping p) (breadth_first (parents_of p) d seeds)))"
proof (induction d arbitrary: seeds acc)
  case 0
  then show ?case
    by (subst get_all_parent_classes.simps) (simp add: List.map_filter_def)
next
  case (Suc d)
  have "get_all_parent_classes p seeds acc =
        get_all_parent_classes p (concat (map (parents_of p) seeds))
          (acc @ List.map_filter (node_mapping p) seeds)"
    using parents_step [OF hdr, of seeds "[]" acc] by simp
  also have "\<dots> = Some (Inr ((acc @ List.map_filter (node_mapping p) seeds) @
      List.map_filter (node_mapping p)
        (breadth_first (parents_of p) d (concat (map (parents_of p) seeds)))))"
    using Suc.prems by (intro Suc.IH) simp
  finally show ?case
    by (simp add: map_filter_append)
qed

text \<open>
  C9. The parser is in name mode (\<open>exact\<close> is false), so that the index exists.
  When every indexed class has a header line and the generations of parent
  names die out at depth \<open>d\<close>, \<open>get_all_parent_classes\<close> returns: it gives the
  nodes it was handed (the queried class), followed by the nodes of the seed
  names and of their ancestors in breadth-first order, generation after
  generation, a class being listed once for every path that leads to it. The
  names of one step are read from the text of the header: what stands between
  the first opening and the last closing parenthesis, split at comma-space,
  and of these only the keys of the index.
\<close>

theorem C9_parent_classes:
  assumes "\<not> exact p"
  shows "((\<forall>nd \<in> set (walk (data p)). kind nd = ClassDef \<longrightarrow> class_header p nd \<noteq> Inl IndexError) \<longrightarrow>
    generation (parents_of p) d seeds = [] \<longrightarrow>
      get_all_parent_classes p seeds current_nodes =
        Some (Inr (current_nodes @
          List.map_filter (node_mapping p) (breadth_first (parents_of p) d seeds)))) \<and>
   (\<forall>pre mid post.
      text = pre @ ''('' @ mid @ '')'' @ post \<and> CHR ''('' \<notin> set pre \<and> CHR '')'' \<notin> set post \<longrightarrow>
      filter_parent_classes p text =
        filter (\<lambda>c. c \<in> dom (node_mapping p)) (py_split '', '' mid)) \<and>
   set (filter_parent_classes p text) \<subseteq> dom (node_mapping p)"
proof (intro conjI impI allI)
  assume "\<forall>nd \<in> set (walk (data p)). kind nd = ClassDef \<longrightarrow> class_header p nd \<noteq> Inl IndexError"
    and "generation (parents_of p) d seeds = []"
  then show "get_all_parent_classes p seeds current_nodes =
        Some (Inr (current_nodes @
          List.map_filter (node_mapping p) (breadth_first (parents_of p) d seeds)))"
    by (rule parents_breadth_first)
next
  fix pre mid post
  assume "text = pre @ ''('' @ mid @ '')'' @ post \<and> CHR ''('' \<notin> set pre \<and> CHR '')'' \<notin> set post"
  then show "filter_parent_classes p text =
        filter (\<lambda>c. c \<in> dom (node_mapping p)) (py_split '', '' mid)"
    using between_parentheses [of pre post mid]
    by (simp add: filter_parent_classes_def dom_def)
next
  show "set (filter_parent_classes p text) \<subseteq> dom (node_mapping p)"
    by (rule filter_parent_classes_indexed)
qed

theorem C9_parent_classes_witness:
  "get_all_parent_classes diamond_parser [''B'', ''C'']
     [Node ClassDef ''D'' 7 8 [Node Other [] 8 8 []]] =
   Some (Inr [Node ClassDef ''D'' 7 8 [Node Other [] 8 8 []],
              Node ClassDef ''B'' 3 4 [Node Other [] 4 4 []],
              Node ClassDef ''C'' 5 6 [Node Other [] 6 6 []],
              Node ClassDef ''A'' 1 2 [Node Other [] 2 2 []],
              Node ClassDef ''A'' 1 2 [Node Other [] 2 2 []]]) \<and>
   filter_parent_classes diamond_parser ''class D(B, C):'' = [''B'', ''C'']"
proof -
  have hdr: "\<forall>nd \<in> set (walk (data diamond_parser)).
      kind nd = ClassDef \<longrightarrow> class_header diamond_parser nd \<noteq> Inl IndexError"
    by code_simp
  have gen: "generation (parents_of diamond_parser) 2 [''B'', ''C''] = []"
    by code_simp
  have bfs: "List.map_filter (node_mapping diamond_parser)
      (breadth_first (parents_of diamond_parser) 2 [''B'', ''C'']) =
      [Node ClassDef ''B'' 3 4 [Node Other [] 4 4 []],
       Node ClassDef ''C'' 5 6 [Node Other [] 6 6 []],
       Node ClassDef ''A'' 1 2 [Node Other [] 2 2 []],
       Node ClassDef ''A'' 1 2 [Node Other [] 2 2 []]]"
    by code_simp
  have cut: "''class D(B, C):'' = ''class D'' @ ''('' @ ''B, C'' @ '')'' @ '':'' \<and>
      CHR ''('' \<notin> set ''class D'' \<and> CHR '')'' \<notin> set '':''"
    by simp
  have keys: "filter (\<lambda>c. c \<in> dom (node_mapping diamond_parser)) (py_split '', '' ''B, C'') =
      [''B'', ''C'']"
    by code_simp
  have name_mode: "\<not> exact diamond_parser"
    by code_simp
  note all = C9_parent_classes [of diamond_parser 2 "[''B'', ''C'']"
      "[Node ClassDef ''D'' 7 8 [Node Other [] 8 8 []]]" "''class D(B, C):''", OF name_mode]
  from all hdr gen bfs have nodes: "get_all_parent_classes diamond_parser [''B'', ''C'']
     [Node ClassDef ''D'' 7 8 [Node Other [] 8 8 []]] =
   Some (Inr [Node ClassDef ''D'' 7 8 [Node Other [] 8 8 []],
              Node ClassDef ''B'' 3 4 [Node Other [] 4 4 []],
              Node ClassDef ''C'' 5 6 [Node Other [] 6 6 []],
              Node ClassDef ''A'' 1 2 [Node Other [] 2 2 []],
              Node ClassDef ''A'' 1 2 [Node Other [] 2 2 []]])"
    by simp
  from all cut have "filter_parent_classes diamond_parser ''class D(B, C):'' =
      filter (\<lambda>c. c \<in> dom (node_mapping diamond_parser)) (py_split '', '' ''B, C'')"
    by blast
  with nodes keys show ?thesis by simp
qed

section \<open>Properties of the search by name\<close>

text \<open>
  C8. In name mode, a class name that is no key of the index gives the empty
  sequence of matches and no exception, whatever the count and with or without
  the search of the parent classes.
\<close>

theorem C8_unknown_class:
  "\<not> exact p \<Longrightarrow> cls p = Some c \<Longrightarrow> node_mapping p c = None \<Longrightarrow>
   parse_data p count allow_parent_class = Some ([], None)"
  by (simp add: parse_data_def Let_def)

theorem C8_unknown_class_witness:
  "\<not> exact missing_class_parser \<and> cls missing_class_parser = Some ''C'' \<and>
   node_mapping missing_class_parser ''C'' = None \<and>
   parse_data missing_class_parser 1 True = Some ([], None) \<and>
   parse_data missing_class_parser 1 False = Some ([], None)"
proof -
  have h: "\<not> exact missing_class_parser" "cls missing_class_parser = Some ''C''"
    "node_mapping missing_class_parser ''C'' = None"
    by code_simp+
  show ?thesis
    using h C8_unknown_class [OF h, of 1 True] C8_unknown_class [OF h, of 1 False] by simp
qed

lemma class_body_loop_eq:
  "class_body_loop ls q items (n, out) =
     (n + int (length (filter (\<lambda>b. is_function b \<and> name b = q) items)),
      out @ map (\<lambda>b. snippet ls (lineno b - 1) (end_lineno b))
              (filter (\<lambda>b. is_function b \<and> name b = q) items))"
  by (induction items arbitrary: n out) auto

text \<open>
  C5. Class \<open>b\<close> names class \<open>a\<close> as its only indexed base, \<open>a\<close> has no indexed
  base, the body of \<open>b\<close> holds no function with the target name and the body of
  \<open>a\<close> exactly one, \<open>foo\<close>. Then, for every count of at least 1, the search with
  the parent classes yields exactly the text and start line of \<open>foo\<close>, and the
  search without them yields nothing.
\<close>

theorem C5_inherited_method:
  assumes "\<not> exact p" and "cls p = Some b"
    and "node_mapping p b = Some nb" and "node_mapping p a = Some na"
    and "py_index (splitlines (source_code p)) (lineno nb - 1) = Inr header_b"
    and "filter_parent_classes p header_b = [a]"
    and "class_header p na = Inr header_a"
    and "filter_parent_classes p header_a = []"
    and "filter (\<lambda>i. is_function i \<and> name i = to_search_for p) (body nb) = []"
    and "filter (\<lambda>i. is_function i \<and> name i = to_search_for p) (body na) = [foo]"
    and "1 \<le> count"
  shows "parse_data p count True =
           Some ([snippet (splitlines (source_code p)) (lineno foo - 1) (end_lineno foo)], None) \<and>
         parse_data p count False = Some ([], None)"
proof -
  have "get_all_parent_classes p [a] [nb] = get_all_parent_classes p [] [nb, na]"
    using assms(4,7,8) by (subst get_all_parent_classes.simps) simp
  also have "\<dots> = Some (Inr [nb, na])"
    by (subst get_all_parent_classes.simps) simp
  finally have chain: "get_all_parent_classes p [a] [nb] = Some (Inr [nb, na])" .
  from assms(9,10,11) have with_parents:
    "class_nodes_loop (splitlines (source_code p)) (to_search_for p) count [nb, na] (0, []) =
       (1, [snippet (splitlines (source_code p)) (lineno foo - 1) (end_lineno foo)])"
    by (simp add: class_body_loop_eq)
  from assms(9,11) have alone:
    "class_nodes_loop (splitlines (source_code p)) (to_search_for p) count [nb] (0, []) = (0, [])"
    by (simp add: class_body_loop_eq)
  show ?thesis
    using assms(1,2,3,5,6) chain with_parents alone
    by (simp add: parse_data_def Let_def)
qed

theorem C5_inherited_method_witness:
  "parse_data inherit_parser 1 True =
     Some ([(''    def foo(self):'' @ nl @ ''        return 1'', 1)], None) \<and>
   parse_data inherit_parser 1 False = Some ([], None)"
proof -
  let ?A = "Node ClassDef ''A'' 1 3 [Node FunctionDef ''foo'' 2 3 [Node Other [] 3 3 []]]"
  let ?B = "Node ClassDef ''B'' 4 5 [Node Other [] 5 5 []]"
  let ?foo = "Node FunctionDef ''foo'' 2 3 [Node Other [] 3 3 []]"
  have h1: "\<not> exact inherit_parser" and h2: "cls inherit_parser = Some ''B''"
    and h3: "node_mapping inherit_parser ''B'' = Some ?B"
    and h4: "node_mapping inherit_parser ''A'' = Some ?A"
    and h5: "py_index (splitlines (source_code inherit_parser)) (lineno ?B - 1) = Inr ''class B(A):''"
    and h6: "filter_parent_classes inherit_parser ''class B(A):'' = [''A'']"
    and h7: "class_header inherit_parser ?A = Inr ''class A:''"
    and h8: "filter_parent_classes inherit_parser ''class A:'' = []"
    and h9: "filter (\<lambda>i. is_function i \<and> name i = to_search_for inherit_parser) (body ?B) = []"
    and h10: "filter (\<lambda>i. is_function i \<and> name i = to_search_for inherit_parser) (body ?A) = [?foo]"
    by code_simp+
  have h11: "(1::int) \<le> 1" by simp
  have snip: "snippet (splitlines (source_code inherit_parser)) (lineno ?foo - 1) (end_lineno ?foo) =
      (''    def foo(self):'' @ nl @ ''        return 1'', 1)"
    by code_simp
  show ?thesis
    using C5_inherited_method [OF h1 h2 h3 h4 h5 h6 h7 h8 h9 h10 h11] snip by simp
qed
















section \<open>The bound on the number of matches, where it holds\<close>

text \<open>
  In exact mode and in name mode without a class, the counter is compared with
  the count before every yield, and no run yields more than \<open>count\<close> matches.
\<close>

lemma name_walk_loop_bounded:
  "n \<le> count \<Longrightarrow> int (length out) = n \<Longrightarrow>
   int (length (snd (name_walk_loop ls q count fs (n, out)))) \<le> count"
  by (induction fs arbitrary: n out) auto

lemma func_lines_loop_bounded:
  "within_count count s \<Longrightarrow>
   within_count count (snd (func_lines_loop q new_lines count func_node is s))"
proof (induction "is" arbitrary: s)
  case Nil
  then show ?case by simp
next
  case (Cons i "is")
  obtain seen out where s: "s = (seen, out)" by (cases s)
  show ?case
  proof (cases "py_index new_lines i")
    case (Inl e)
    with Cons s show ?thesis by simp
  next
    case (Inr line)
    have "within_count count
        (List.insert (lineno func_node, end_lineno func_node) seen,
         out @ [snippet new_lines (lineno func_node - 1) (end_lineno func_node)])"
      if "int (length seen) \<noteq> count" "(lineno func_node, end_lineno func_node) \<notin> set seen"
      using that Cons.prems s by (simp add: within_count_def)
    with Cons s Inr show ?thesis by auto
  qed
qed

lemma func_nodes_loop_bounded:
  "within_count count s \<Longrightarrow>
   within_count count (snd (func_nodes_loop q new_lines count start end fns s))"
proof (induction fns arbitrary: s)
  case Nil
  then show ?case by simp
next
  case (Cons func_node rest)
  let ?r = "func_lines_loop q new_lines count func_node
              (py_range (lineno func_node - 1) (end_lineno func_node)) s"
  from Cons.prems have r: "within_count count (snd ?r)"
    by (rule func_lines_loop_bounded)
  show ?case
  proof (cases "is_function func_node \<and> start \<le> lineno func_node \<and> lineno func_node < end")
    case False
    with Cons show ?thesis by auto
  next
    case True
    show ?thesis
    proof (cases "fst ?r")
      case Next
      with True Cons.IH [OF r] show ?thesis
        by (cases ?r) simp
    next
      case Return
      with True r show ?thesis by (cases ?r) simp
    next
      case (Raise e)
      with True r show ?thesis by (cases ?r) simp
    qed
  qed
qed

lemma node_lines_loop_bounded:
  "within_count count s \<Longrightarrow>
   within_count count (snd (node_lines_loop q new_lines count nd is s))"
proof (induction "is" arbitrary: s)
  case Nil
  then show ?case by simp
next
  case (Cons i "is")
  obtain seen out where s: "s = (seen, out)" by (cases s)
  show ?case
  proof (cases "py_index new_lines i")
    case (Inl e)
    with Cons s show ?thesis by simp
  next
    case (Inr line)
    show ?thesis
    proof (cases "q = rstrip (lstrip line)")
      case False
      with Cons s Inr show ?thesis by simp
    next
      case True
      show ?thesis
      proof (cases "\<not> startswith q ''class '' \<and> kind nd = ClassDef")
        case in_class: True
        let ?r = "func_nodes_loop q new_lines count (lineno nd - 1) (end_lineno nd)
                    (body nd) (seen, out)"
        from Cons.prems s have r: "within_count count (snd ?r)"
          by (simp add: func_nodes_loop_bounded)
        show ?thesis
        proof (cases "fst ?r")
          case Next
          with in_class True Inr s Cons.IH [OF r] show ?thesis
            by (cases ?r) simp
        next
          case Return
          with in_class True Inr s r show ?thesis by (cases ?r) simp
        next
          case (Raise e)
          with in_class True Inr s r show ?thesis by (cases ?r) simp
        qed
      next
        case direct: False
        have "within_count count
            (List.insert (lineno nd - 1, end_lineno nd) seen,
             out @ [snippet new_lines (lineno nd - 1) (end_lineno nd)])"
          if "int (length seen) \<noteq> count" "(lineno nd - 1, end_lineno nd) \<notin> set seen"
          using that Cons.prems s by (simp add: within_count_def)
        with direct True Inr s Cons show ?thesis by auto
      qed
    qed
  qed
qed

lemma exact_walk_loop_bounded:
  "within_count count s \<Longrightarrow>
   within_count count (snd (exact_walk_loop q new_lines count nds s))"
proof (induction nds arbitrary: s)
  case Nil
  then show ?case by simp
next
  case (Cons nd nds)
  let ?r = "node_lines_loop q new_lines count nd (py_range (lineno nd - 1) (end_lineno nd)) s"
  from Cons.prems have r: "within_count count (snd ?r)"
    by (rule node_lines_loop_bounded)
  show ?case
  proof (cases "is_definition nd")
    case False
    with Cons show ?thesis by simp
  next
    case True
    show ?thesis
    proof (cases "fst ?r")
      case Next
      with True Cons.IH [OF r] show ?thesis by (cases ?r) simp
    next
      case Return
      with True r show ?thesis by (cases ?r) simp
    next
      case (Raise e)
      with True r show ?thesis by (cases ?r) simp
    qed
  qed
qed

lemma parse_data_bounded:
  assumes "exact p \<or> cls p = None" and "0 \<le> count"
    and "parse_data p count allow_parent_class = Some (out, err)"
  shows "int (length out) \<le> count"
proof (cases "exact p")
  case True
  let ?r = "exact_walk_loop (to_search_for p)
      (splitlines (rstrip (lstrip (join nl (splitlines (source_code p))))))
      count (walk (data p)) ([], [])"
  from assms(2) have "within_count count (snd ?r)"
    by (intro exact_walk_loop_bounded) (simp add: within_count_def)
  moreover from True assms(3) have "out = snd (snd ?r)"
    by (cases ?r; cases "fst ?r") (auto simp: parse_data_def Let_def exact_outcome_def)
  ultimately show ?thesis by (simp add: within_count_def)
next
  case False
  with assms(1,3) have "out = snd (name_walk_loop (splitlines (source_code p)) (to_search_for p)
      count (walk (data p)) (0, []))"
    by (auto simp: parse_data_def Let_def)
  with assms(2) name_walk_loop_bounded [of 0 count "[]"] show ?thesis by simp
qed

section \<open>Where the search departs from its description\<close>

text \<open>
  C1. Class \<open>A\<close> defines \<open>foo\<close> twice. The search by name inside the class, with
  count 1, yields both definitions: the counter is compared with the count once
  for every class (line 168), not before every yield, so the sequence is longer
  than the count.
\<close>

theorem C1_count_exceeded:
  "parse_data two_foo_parser 1 True =
     Some ([(''    def foo(self):'' @ nl @ ''        return 1'', 1),
            (''    def foo(self):'' @ nl @ ''        return 2'', 3)], None) \<and>
   parse_data two_foo_parser 1 False =
     Some ([(''    def foo(self):'' @ nl @ ''        return 1'', 1),
            (''    def foo(self):'' @ nl @ ''        return 2'', 3)], None)"
  by code_simp

text \<open>
  C2. The line \<open>return 1\<close> stands in the method \<open>foo\<close> of class \<open>A\<close> and in the
  function \<open>g\<close> after the class. When the exact search finds the line inside
  the class, the loop over the functions of the class body yields nothing,
  because line 134 compares the query with the line as it is indented, and
  line 110 with the trimmed line. With count 1 the one match is then \<open>g\<close>, and
  the method is never yielded.
\<close>

theorem C2_method_not_widened:
  "func_nodes_loop ''return 1'' (splitlines method_function_source) 1 0 3
     [Node FunctionDef ''foo'' 2 3 [Node Other [] 3 3 []]] ([], []) = (Next, ([], [])) \<and>
   parse_data method_function_parser 1 True =
     Some ([(''def g():'' @ nl @ ''    return 1'', 3)], None)"
  by code_simp

text \<open>
  C4. The method \<open>foo\<close> has a line that is not indented. The exact search for
  that line, with count 2, yields the method twice: once from the class, under
  the key \<open>(lineno, end_lineno)\<close> of lines 141 to 146, and once from the function
  itself, under the key \<open>(lineno - 1, end_lineno)\<close> of line 153.
\<close>

theorem C4_method_yielded_twice:
  "parse_data continuation_parser 2 True =
     Some ([(''    def foo(self):'' @ nl @ ''        return ('' @ nl @ ''1'' @ nl @ ''        )'', 1),
            (''    def foo(self):'' @ nl @ ''        return ('' @ nl @ ''1'' @ nl @ ''        )'', 1)],
           None)"
  by code_simp

end
